theory Spec2Isabelle
  imports Complex_Main "HOL-Library.Log_Nat"
begin

section \<open>Execution guard: data model\<close>

text \<open>
  The embedding follows \<^verbatim>\<open>core/framework/runtime/execution_guard.py\<close>.
  Python's unbounded \<^verbatim>\<open>int\<close> is \<^typ>\<open>int\<close>. The accumulated cost is a
  binary64 value and every addition to it is rounded, as \<^verbatim>\<open>+=\<close> on a Python
  \<^verbatim>\<open>float\<close> is. The cost ceiling, the reported amounts and the clock readings are
  real numbers: they are only compared, or added to the accumulated cost.
  The clock \<^verbatim>\<open>time.time()\<close> is an input of the program: every function that reads
  it takes the reading as an argument.
\<close>

text \<open>The values stored in the \<^verbatim>\<open>details\<close> and statistics dictionaries.\<close>

datatype pyval =
    PyNone
  | PyInt int
  | PyFloat real
  | PyStr string
  | PyDict "(string \<times> pyval) list"

section \<open>Binary64 values\<close>

text \<open>
  A Python \<^verbatim>\<open>float\<close> is an IEEE 754 binary64 number, and \<^verbatim>\<open>a + b\<close> is the exact
  sum rounded to the nearest binary64 number, a tie going to the one with the even
  significand. Every finite binary64 number is an integer multiple of \<open>2 ^ - 1074\<close>;
  the rounding is written on that scale, in units of \<open>2 ^ - 1074\<close>.
\<close>

text \<open>Rounding a real number to the nearest integer, a tie going to the even one.\<close>

definition round_half_even :: "real \<Rightarrow> int" where
  "round_half_even m =
     (let f = \<lfloor>m\<rfloor>; d = m - of_int f
      in if d < 1 / 2 then f else if 1 / 2 < d then f + 1
         else if even f then f else f + 1)"

text \<open>
  A number of \<open>y\<close> units keeps 53 significant bits: it is rounded to a multiple of
  \<open>2 ^ s\<close> units, where \<open>s\<close> is the number of bits of its integer part beyond 53
  (none in the subnormal range and in the lowest binade).
\<close>

definition b64_shift :: "real \<Rightarrow> nat" where
  "b64_shift y = nat (bitlen \<lfloor>\<bar>y\<bar>\<rfloor> - 53)"

definition round_grid :: "nat \<Rightarrow> real \<Rightarrow> real" where
  "round_grid s y = of_int (round_half_even (y / 2 ^ s)) * 2 ^ s"

definition round_units :: "real \<Rightarrow> real" where
  "round_units y = round_grid (b64_shift y) y"

definition b64_round :: "real \<Rightarrow> real" where
  "b64_round x = round_units (x * 2 ^ 1074) / 2 ^ 1074"

text \<open>
  The binary64 values are the real numbers that rounding leaves alone. The exponent is
  not bounded above here: a sum of \<open>2 ^ 1024\<close> or more, which binary64 stores as
  \<^verbatim>\<open>inf\<close>, keeps its rounded value, and \<^verbatim>\<open>nan\<close> does not occur.
\<close>

typedef b64 = "{x :: real. b64_round x = x}"
  morphisms b64_val b64_abs
  by (rule exI [of _ 0])
    (simp add: b64_round_def round_units_def round_grid_def round_half_even_def)

text \<open>The binary64 value nearest to a real number, and the binary64 sum.\<close>

definition b64_of :: "real \<Rightarrow> b64" where
  "b64_of x = b64_abs (b64_round x)"

definition b64_add :: "b64 \<Rightarrow> real \<Rightarrow> b64" where
  "b64_add a x = b64_of (b64_val a + x)"

text \<open>\<^verbatim>\<open>@dataclass ExecutionLimitConfig\<close>: four optional ceilings, \<^verbatim>\<open>None\<close> = no limit.\<close>

record ExecutionLimitConfig =
  max_steps :: "int option"
  max_runtime_ms :: "int option"
  max_tokens :: "int option"
  max_cost_usd :: "real option"

text \<open>\<^verbatim>\<open>@dataclass ExecutionGuardResult\<close>; the dictionary keeps its insertion order.\<close>

record ExecutionGuardResult =
  should_terminate :: bool
  reason :: string
  details :: "(string \<times> pyval) list"

text \<open>The attributes of an \<^verbatim>\<open>ExecutionGuard\<close> instance.\<close>

record ExecutionGuard =
  execution_id :: string
  config :: ExecutionLimitConfig
  start_time :: real
  step_count :: int
  token_count :: int
  cost_tracker :: b64

section \<open>Construction\<close>

text \<open>
  The last line of the constructor formats the configuration into the argument of
  \<^verbatim>\<open>logger.debug\<close>. The string is built before the call, whatever the log level,
  and the \<^verbatim>\<open>repr\<close> of the dataclass converts every integer limit to decimal. CPython
  (3.11 and later, with the default \<^verbatim>\<open>sys.int_max_str_digits\<close>) raises
  \<^verbatim>\<open>ValueError\<close> when an integer of more than 4300 digits is converted; the
  \<^verbatim>\<open>repr\<close> of \<^verbatim>\<open>None\<close>, of a float and the formatting of a string do not raise.
\<close>

definition int_max_str_digits :: nat where
  "int_max_str_digits = 4300"

definition int_str_raises :: "int \<Rightarrow> bool" where
  "int_str_raises n = (10 ^ int_max_str_digits \<le> \<bar>n\<bar>)"

definition limit_str_raises :: "int option \<Rightarrow> bool" where
  "limit_str_raises v = (case v of None \<Rightarrow> False | Some n \<Rightarrow> int_str_raises n)"

definition config_str_raises :: "ExecutionLimitConfig \<Rightarrow> bool" where
  "config_str_raises cfg =
     (limit_str_raises (max_steps cfg) \<or> limit_str_raises (max_runtime_ms cfg) \<or>
      limit_str_raises (max_tokens cfg))"

text \<open>
  \<^verbatim>\<open>ExecutionGuard.__init__(execution_id, config)\<close>. The third argument is the value
  of \<^verbatim>\<open>time.time()\<close> read by the constructor. The result is \<open>None\<close> when the
  constructor raises, which it does only in its log line; there is no validation of
  the configuration, neither here nor in the dataclass.
\<close>

definition ExecutionGuard_init ::
  "string \<Rightarrow> ExecutionLimitConfig \<Rightarrow> real \<Rightarrow> ExecutionGuard option" where
  "ExecutionGuard_init eid cfg now =
     (if config_str_raises cfg then None
      else Some \<lparr>execution_id = eid, config = cfg, start_time = now,
                 step_count = 0, token_count = 0, cost_tracker = b64_of 0\<rparr>)"

section \<open>The four individual checks\<close>

text \<open>
  The checks assign to no attribute of \<^verbatim>\<open>self\<close>; each is a function of the guard
  (and of the clock, for the runtime check) that returns
  \<^verbatim>\<open>Optional[ExecutionGuardResult]\<close>.
\<close>

definition check_step_limit :: "ExecutionGuard \<Rightarrow> ExecutionGuardResult option" where
  "check_step_limit g =
     (if max_steps (config g) \<noteq> None \<and> step_count g > the (max_steps (config g))
      then Some \<lparr>should_terminate = True,
                 reason = ''STEP_LIMIT_EXCEEDED'',
                 details = [(''step_count'', PyInt (step_count g)),
                            (''max_steps'', PyInt (the (max_steps (config g))))]\<rparr>
      else None)"

text \<open>\<^verbatim>\<open>(time.time() - self.start_time) * 1000\<close>, for the clock reading \<open>now\<close>.\<close>

definition current_runtime_ms :: "ExecutionGuard \<Rightarrow> real \<Rightarrow> real" where
  "current_runtime_ms g now = (now - start_time g) * 1000"

definition check_runtime_limit :: "ExecutionGuard \<Rightarrow> real \<Rightarrow> ExecutionGuardResult option" where
  "check_runtime_limit g now =
     (if max_runtime_ms (config g) \<noteq> None
      then (if current_runtime_ms g now \<ge> of_int (the (max_runtime_ms (config g)))
            then Some \<lparr>should_terminate = True,
                       reason = ''TIME_LIMIT_EXCEEDED'',
                       details = [(''current_runtime_ms'', PyFloat (current_runtime_ms g now)),
                                  (''max_runtime_ms'', PyInt (the (max_runtime_ms (config g))))]\<rparr>
            else None)
      else None)"

definition check_token_limit :: "ExecutionGuard \<Rightarrow> ExecutionGuardResult option" where
  "check_token_limit g =
     (if max_tokens (config g) \<noteq> None \<and> token_count g \<ge> the (max_tokens (config g))
      then Some \<lparr>should_terminate = True,
                 reason = ''TOKEN_LIMIT_EXCEEDED'',
                 details = [(''token_count'', PyInt (token_count g)),
                            (''max_tokens'', PyInt (the (max_tokens (config g))))]\<rparr>
      else None)"

definition check_cost_limit :: "ExecutionGuard \<Rightarrow> ExecutionGuardResult option" where
  "check_cost_limit g =
     (if max_cost_usd (config g) \<noteq> None \<and> b64_val (cost_tracker g) \<ge> the (max_cost_usd (config g))
      then Some \<lparr>should_terminate = True,
                 reason = ''COST_LIMIT_EXCEEDED'',
                 details = [(''current_cost_usd'', PyFloat (b64_val (cost_tracker g))),
                            (''max_cost_usd'', PyFloat (the (max_cost_usd (config g))))]\<rparr>
      else None)"

section \<open>The aggregate check\<close>

text \<open>
  The loop \<^verbatim>\<open>for check_result in checks: if check_result is not None: return check_result\<close>,
  as a recursion over the list; \<open>None\<close> when the loop falls through.
\<close>

fun first_check :: "ExecutionGuardResult option list \<Rightarrow> ExecutionGuardResult option" where
  "first_check [] = None"
| "first_check (c # cs) = (if c \<noteq> None then c else first_check cs)"

text \<open>
  \<^verbatim>\<open>check_all_limits\<close> reads the clock twice: once inside \<^verbatim>\<open>check_runtime_limit\<close>
  (reading \<open>t1\<close>) and once more for the \<^verbatim>\<open>runtime_ms\<close> field of the
  within-limits result (reading \<open>t2\<close>). The call of \<^verbatim>\<open>logger.warning\<close> before a
  tripped result is returned is left out: it touches no attribute of the guard and
  cannot change which result is chosen; it can only abort the call, when the result
  holds an integer of more than 4300 digits.
\<close>

definition check_all_limits :: "ExecutionGuard \<Rightarrow> real \<Rightarrow> real \<Rightarrow> ExecutionGuardResult" where
  "check_all_limits g t1 t2 =
     (case first_check [check_step_limit g, check_runtime_limit g t1,
                        check_token_limit g, check_cost_limit g] of
        Some check_result \<Rightarrow> check_result
      | None \<Rightarrow> \<lparr>should_terminate = False,
                 reason = ''WITHIN_LIMITS'',
                 details = [(''step_count'', PyInt (step_count g)),
                            (''runtime_ms'', PyFloat (current_runtime_ms g t2)),
                            (''token_count'', PyInt (token_count g)),
                            (''cost_usd'', PyFloat (b64_val (cost_tracker g)))]\<rparr>)"

section \<open>Recording usage\<close>

definition increment_step :: "ExecutionGuard \<Rightarrow> ExecutionGuard" where
  "increment_step g = g\<lparr>step_count := step_count g + 1\<rparr>"

definition add_tokens :: "int \<Rightarrow> ExecutionGuard \<Rightarrow> ExecutionGuard" where
  "add_tokens n g = (if n > 0 then g\<lparr>token_count := token_count g + n\<rparr> else g)"

text \<open>\<^verbatim>\<open>self.cost_tracker += cost_usd\<close> is a binary64 addition.\<close>

definition add_cost :: "real \<Rightarrow> ExecutionGuard \<Rightarrow> ExecutionGuard" where
  "add_cost cost_usd g =
     (if cost_usd > 0 then g\<lparr>cost_tracker := b64_add (cost_tracker g) cost_usd\<rparr> else g)"

section \<open>Statistics\<close>

definition opt_int :: "int option \<Rightarrow> pyval" where
  "opt_int v = (case v of None \<Rightarrow> PyNone | Some i \<Rightarrow> PyInt i)"

definition opt_float :: "real option \<Rightarrow> pyval" where
  "opt_float v = (case v of None \<Rightarrow> PyNone | Some x \<Rightarrow> PyFloat x)"

definition get_stats :: "ExecutionGuard \<Rightarrow> real \<Rightarrow> (string \<times> pyval) list" where
  "get_stats g now =
     [(''execution_id'', PyStr (execution_id g)),
      (''step_count'', PyInt (step_count g)),
      (''runtime_ms'', PyFloat (current_runtime_ms g now)),
      (''token_count'', PyInt (token_count g)),
      (''cost_usd'', PyFloat (b64_val (cost_tracker g))),
      (''limits'', PyDict
         [(''max_steps'', opt_int (max_steps (config g))),
          (''max_runtime_ms'', opt_int (max_runtime_ms (config g))),
          (''max_tokens'', opt_int (max_tokens (config g))),
          (''max_cost_usd'', opt_float (max_cost_usd (config g)))])]"

section \<open>Method calls as state transformers\<close>

text \<open>
  One call of a method of the guard, with its arguments and with the clock readings
  made during the call. \<open>call\<close> runs it on a guard and gives what the method returns
  together with the guard afterwards; \<open>run\<close> performs a sequence of calls.
\<close>

datatype operation =
    Check_step_limit
  | Check_runtime_limit real
  | Check_token_limit
  | Check_cost_limit
  | Check_all_limits real real
  | Get_stats real
  | Increment_step
  | Add_tokens int
  | Add_cost real

datatype returned =
    RetNone
  | RetCheck "ExecutionGuardResult option"
  | RetResult ExecutionGuardResult
  | RetStats "(string \<times> pyval) list"

fun call :: "operation \<Rightarrow> ExecutionGuard \<Rightarrow> returned \<times> ExecutionGuard" where
  "call Check_step_limit g = (RetCheck (check_step_limit g), g)"
| "call (Check_runtime_limit now) g = (RetCheck (check_runtime_limit g now), g)"
| "call Check_token_limit g = (RetCheck (check_token_limit g), g)"
| "call Check_cost_limit g = (RetCheck (check_cost_limit g), g)"
| "call (Check_all_limits t1 t2) g = (RetResult (check_all_limits g t1 t2), g)"
| "call (Get_stats now) g = (RetStats (get_stats g now), g)"
| "call Increment_step g = (RetNone, increment_step g)"
| "call (Add_tokens n) g = (RetNone, add_tokens n g)"
| "call (Add_cost c) g = (RetNone, add_cost c g)"

fun run :: "operation list \<Rightarrow> ExecutionGuard \<Rightarrow> ExecutionGuard" where
  "run [] g = g"
| "run (m # ms) g = run ms (snd (call m g))"

text \<open>The methods that read the guard, and the three that record usage.\<close>

fun is_read :: "operation \<Rightarrow> bool" where
  "is_read Increment_step = False"
| "is_read (Add_tokens n) = False"
| "is_read (Add_cost c) = False"
| "is_read m = True"

section \<open>Invalid configurations, in the words of the specification\<close>

text \<open>
  The source has no notion of an invalid configuration. The specification names a
  negative limit as its example of one; this predicate follows those words, and is used
  only to state what the constructor does with such a configuration.
\<close>

definition has_negative_limit :: "ExecutionLimitConfig \<Rightarrow> bool" where
  "has_negative_limit cfg =
     ((case max_steps cfg of Some m \<Rightarrow> m < 0 | None \<Rightarrow> False) \<or>
      (case max_runtime_ms cfg of Some m \<Rightarrow> m < 0 | None \<Rightarrow> False) \<or>
      (case max_tokens cfg of Some m \<Rightarrow> m < 0 | None \<Rightarrow> False) \<or>
      (case max_cost_usd cfg of Some m \<Rightarrow> m < 0 | None \<Rightarrow> False))"

section \<open>Example guards\<close>


text \<open>The configuration and the fresh guard of \<^verbatim>\<open>test_step_limit_exceeded\<close>.\<close>

definition config_three_steps :: ExecutionLimitConfig where
  "config_three_steps =
     \<lparr>max_steps = Some 3, max_runtime_ms = None, max_tokens = None, max_cost_usd = None\<rparr>"

definition guard_three_steps :: ExecutionGuard where
  "guard_three_steps =
     \<lparr>execution_id = ''test-execution'', config = config_three_steps, start_time = 0,
      step_count = 0, token_count = 0, cost_tracker = b64_of 0\<rparr>"


text \<open>A configuration with three negative ceilings.\<close>

definition config_negative :: ExecutionLimitConfig where
  "config_negative =
     \<lparr>max_steps = Some (- 1), max_runtime_ms = None, max_tokens = Some (- 5),
      max_cost_usd = Some (- 2)\<rparr>"

text \<open>The configuration and the fresh guard of \<^verbatim>\<open>test_no_limits_configured\<close>.\<close>

definition config_unset :: ExecutionLimitConfig where
  "config_unset =
     \<lparr>max_steps = None, max_runtime_ms = None, max_tokens = None, max_cost_usd = None\<rparr>"

definition guard_unset :: ExecutionGuard where
  "guard_unset =
     \<lparr>execution_id = ''test-execution'', config = config_unset, start_time = 0,
      step_count = 0, token_count = 0, cost_tracker = b64_of 0\<rparr>"

text \<open>The configuration of \<^verbatim>\<open>test_all_checks_passed\<close> and its guard after the usage recorded there.\<close>

definition config_all_set :: ExecutionLimitConfig where
  "config_all_set =
     \<lparr>max_steps = Some 100, max_runtime_ms = Some 10000, max_tokens = Some 1000,
      max_cost_usd = Some 10\<rparr>"

definition guard_within :: ExecutionGuard where
  "guard_within =
     \<lparr>execution_id = ''test-execution'', config = config_all_set, start_time = 0,
      step_count = 1, token_count = 50, cost_tracker = b64_of (1 / 2)\<rparr>"

section \<open>Sequences of cost reports\<close>

text \<open>
  The value of \<open>cost_tracker\<close> after a sequence of positive reports, as the source
  computes it: one rounded addition per report.
\<close>

fun running_total :: "real \<Rightarrow> real list \<Rightarrow> real" where
  "running_total t [] = t"
| "running_total t (c # cs) = running_total (b64_round (t + c)) cs"

text \<open>No addition of the sequence rounds: every running total is a binary64 value.\<close>

fun exact_sums :: "real \<Rightarrow> real list \<Rightarrow> bool" where
  "exact_sums t [] = True"
| "exact_sums t (c # cs) = (b64_round (t + c) = t + c \<and> exact_sums (t + c) cs)"

text \<open>The binary64 values that Python reads from the literals \<^verbatim>\<open>0.1\<close> and \<^verbatim>\<open>0.2\<close>.\<close>

definition py_0_1 :: real where
  "py_0_1 = 3602879701896397 / 2 ^ 55"

definition py_0_2 :: real where
  "py_0_2 = 3602879701896397 / 2 ^ 54"

text \<open>A fresh guard with a cost ceiling of one dollar, and ten reports of \<^verbatim>\<open>0.1\<close>.\<close>

definition guard_cost_one :: ExecutionGuard where
  "guard_cost_one =
     \<lparr>execution_id = ''test-execution'',
      config = \<lparr>max_steps = None, max_runtime_ms = None, max_tokens = None,
                max_cost_usd = Some 1\<rparr>,
      start_time = 0, step_count = 0, token_count = 0, cost_tracker = b64_of 0\<rparr>"

definition ten_reports :: "real list" where
  "ten_reports = [py_0_1, py_0_1, py_0_1, py_0_1, py_0_1,
                  py_0_1, py_0_1, py_0_1, py_0_1, py_0_1]"

section \<open>Rounding to binary64 is monotone and idempotent\<close>

lemma rhe_int [simp]: "round_half_even (of_int k) = k"
  by (simp add: round_half_even_def)

lemma rhe_bounds: "of_int (round_half_even m) \<le> m + 1 / 2" "m - 1 / 2 \<le> of_int (round_half_even m)"
  unfolding round_half_even_def Let_def by (auto; linarith)+

lemma rhe_floor: "\<lfloor>m\<rfloor> \<le> round_half_even m" "round_half_even m \<le> \<lfloor>m\<rfloor> + 1"
  unfolding round_half_even_def Let_def by auto

lemma rhe_mono: assumes "x \<le> y" shows "round_half_even x \<le> round_half_even y"
proof (cases "\<lfloor>x\<rfloor> = \<lfloor>y\<rfloor>")
  case True
  with assms show ?thesis
    unfolding round_half_even_def Let_def by auto
next
  case False
  with assms have "\<lfloor>x\<rfloor> < \<lfloor>y\<rfloor>" using floor_mono [of x y] by linarith
  then have "\<lfloor>x\<rfloor> + 1 \<le> \<lfloor>y\<rfloor>" by simp
  with rhe_floor(2) [of x] rhe_floor(1) [of y] show ?thesis by linarith
qed

lemma rhe_neg: "round_half_even (- m) = - round_half_even m"
proof (cases "m = of_int \<lfloor>m\<rfloor>")
  case True
  then obtain k where "m = of_int k" ..
  then have "- m = of_int (- k)" by simp
  then show ?thesis using \<open>m = of_int k\<close> by (simp only: rhe_int)
next
  case False
  then have f: "\<lfloor>- m\<rfloor> = - \<lfloor>m\<rfloor> - 1"
    by (metis ceiling_altdef ceiling_def add_diff_cancel_right' minus_diff_eq neg_equal_iff_equal uminus_add_conv_diff) 
  show ?thesis
    unfolding round_half_even_def Let_def f by (auto; linarith?)
qed

lemma shift_eq:
  assumes "\<bar>y\<bar> < 2 ^ (53 + s)" and "s = 0 \<or> 2 ^ (52 + s) \<le> \<bar>y\<bar>"
  shows "b64_shift y = s"
proof -
  let ?n = "\<lfloor>\<bar>y\<bar>\<rfloor>"
  have "of_int ?n < (2::real) ^ (53 + s)" using assms(1) by linarith
  then have "?n < 2 ^ (53 + s)" by (metis of_int_less_numeral_power_cancel_iff)
  then have up: "bitlen ?n \<le> 53 + int s"
    by (simp add: bitlen_le_iff_power nat_add_distrib)
  show ?thesis
  proof (cases "s = 0")
    case True
    with up show ?thesis by (simp add: b64_shift_def)
  next
    case False
    with assms(2) have "(2::real) ^ (52 + s) \<le> \<bar>y\<bar>" by simp
    then have "(2::int) ^ (52 + s) \<le> ?n"
      by (metis le_floor_iff of_int_numeral of_int_power)
    then have "53 + int s \<le> bitlen ?n"
      by (simp add: bitlen_ge_iff_power nat_add_distrib)
    with up show ?thesis by (simp add: b64_shift_def)
  qed
qed

lemma shift_upper: "\<bar>y\<bar> < 2 ^ (53 + b64_shift y)"
proof -
  let ?n = "\<lfloor>\<bar>y\<bar>\<rfloor>"
  have "bitlen ?n \<le> 53 + int (b64_shift y)" by (simp add: b64_shift_def)
  then have "?n < 2 ^ (53 + b64_shift y)"
    by (simp add: bitlen_le_iff_power nat_add_distrib)
  then have "?n + 1 \<le> 2 ^ (53 + b64_shift y)" by simp
  then have "of_int (?n + 1) \<le> (2::real) ^ (53 + b64_shift y)"
    by (metis of_int_le_numeral_power_cancel_iff)
  moreover have "\<bar>y\<bar> < of_int (?n + 1)" by linarith
  ultimately show ?thesis by linarith
qed

lemma shift_lower:
  assumes "0 < b64_shift y"
  shows "2 ^ (52 + b64_shift y) \<le> \<bar>y\<bar>"
proof -
  let ?n = "\<lfloor>\<bar>y\<bar>\<rfloor>"
  from assms have "bitlen ?n = 53 + int (b64_shift y)" by (simp add: b64_shift_def)
  then have "53 + int (b64_shift y) \<le> bitlen ?n" by simp
  then have "(2::int) ^ (52 + b64_shift y) \<le> ?n"
    by (simp add: bitlen_ge_iff_power nat_add_distrib)
  then have "(2::real) ^ (52 + b64_shift y) \<le> of_int ?n"
    by (metis of_int_numeral of_int_power of_int_le_iff)
  then show ?thesis by linarith
qed

lemma shift_neg [simp]: "b64_shift (- y) = b64_shift y"
  by (simp add: b64_shift_def)

lemma round_grid_mono: "x \<le> y \<Longrightarrow> round_grid s x \<le> round_grid s y"
  by (simp add: round_grid_def rhe_mono divide_right_mono)

lemma round_grid_neg: "round_grid s (- y) = - round_grid s y"
  by (simp add: round_grid_def rhe_neg)

lemma round_grid_multiple [simp]: "round_grid s (of_int k * 2 ^ s) = of_int k * 2 ^ s"
  by (simp add: round_grid_def)

lemma round_grid_power: "s \<le> t \<Longrightarrow> round_grid s (2 ^ t) = 2 ^ t"
proof -
  assume "s \<le> t"
  then have "(2::real) ^ t = of_int (2 ^ (t - s)) * 2 ^ s"
    by (simp add: power_add [symmetric])
  then show ?thesis by (metis round_grid_multiple)
qed

lemma round_units_neg: "round_units (- y) = - round_units y"
  by (simp add: round_units_def round_grid_neg)

lemma round_grid_zero [simp]: "round_grid s 0 = 0"
  by (simp add: round_grid_def round_half_even_def)

lemma round_units_nonneg: "0 \<le> y \<Longrightarrow> 0 \<le> round_units y"
  using round_grid_mono [of 0 y "b64_shift y"] by (simp add: round_units_def)

lemma round_units_mono_nonneg:
  assumes "0 \<le> x" and "x \<le> y"
  shows "round_units x \<le> round_units y"
proof -
  let ?s = "b64_shift x" and ?t = "b64_shift y"
  have ax: "\<bar>x\<bar> = x" and ay: "\<bar>y\<bar> = y" using assms by simp_all
  have xu: "x < 2 ^ (53 + ?s)" using shift_upper [of x] ax by simp
  have yu: "y < 2 ^ (53 + ?t)" using shift_upper [of y] ay by simp
  have st: "?s \<le> ?t"
  proof (rule ccontr)
    assume "\<not> ?s \<le> ?t"
    then have lt: "?t < ?s" by simp
    then have "(2::real) ^ (52 + ?s) \<le> x" using shift_lower [of x] ax by simp
    moreover have "(2::real) ^ (53 + ?t) \<le> 2 ^ (52 + ?s)"
      using lt by (intro power_increasing) simp_all
    ultimately show False using xu yu assms by linarith
  qed
  show ?thesis
  proof (cases "?s = ?t")
    case True
    then show ?thesis using assms(2) by (simp add: round_units_def round_grid_mono)
  next
    case False
    with st have lt: "?s < ?t" by simp
    have "round_grid ?s x \<le> round_grid ?s (2 ^ (53 + ?s))"
      using xu by (intro round_grid_mono) simp
    also have "\<dots> = 2 ^ (53 + ?s)" by (rule round_grid_power) simp
    also have "\<dots> \<le> (2::real) ^ (52 + ?t)"
      using lt by (intro power_increasing) simp_all
    also have "\<dots> = round_grid ?t (2 ^ (52 + ?t))"
      by (rule round_grid_power [symmetric]) simp
    also have "\<dots> \<le> round_grid ?t y"
      using shift_lower [of y] lt ay by (intro round_grid_mono) simp
    finally show ?thesis by (simp add: round_units_def)
  qed
qed

lemma round_units_mono:
  assumes "x \<le> y"
  shows "round_units x \<le> round_units y"
proof -
  consider "0 \<le> x" | "y \<le> 0" | "x < 0" "0 < y" by linarith
  then show ?thesis
  proof cases
    case 1
    then show ?thesis using assms by (rule round_units_mono_nonneg)
  next
    case 2
    with assms have "round_units (- y) \<le> round_units (- x)"
      by (intro round_units_mono_nonneg) simp_all
    then show ?thesis by (simp add: round_units_neg)
  next
    case 3
    then have "0 \<le> round_units (- x)" "0 \<le> round_units y"
      by (simp_all add: round_units_nonneg)
    then show ?thesis by (simp add: round_units_neg)
  qed
qed

lemma round_units_idem_nonneg:
  assumes "0 \<le> y"
  shows "round_units (round_units y) = round_units y"
proof -
  let ?s = "b64_shift y"
  let ?k = "round_half_even (y / 2 ^ ?s)"
  have ay: "\<bar>y\<bar> = y" using assms by simp
  have r: "round_units y = of_int ?k * 2 ^ ?s"
    by (simp add: round_units_def round_grid_def)
  have "y / 2 ^ ?s \<le> 2 ^ 53"
    using shift_upper [of y] ay by (simp add: power_add divide_le_eq)
  then have "?k \<le> round_half_even (2 ^ 53)" by (rule rhe_mono)
  moreover have "round_half_even (2 ^ 53) = 2 ^ 53"
    using rhe_int [of "2 ^ 53"] by simp
  ultimately have ku: "?k \<le> 2 ^ 53" by simp
  have "round_half_even 0 \<le> ?k" using assms by (intro rhe_mono) simp
  then have k0: "0 \<le> ?k" using rhe_int [of 0] by simp
  have kl: "2 ^ 52 \<le> ?k" if "0 < ?s"
  proof -
    have "2 ^ 52 \<le> y / 2 ^ ?s"
      using shift_lower [OF that] ay by (simp add: power_add le_divide_eq)
    then have "round_half_even (2 ^ 52) \<le> ?k" by (rule rhe_mono)
    moreover have "round_half_even (2 ^ 52) = 2 ^ 52"
      using rhe_int [of "2 ^ 52"] by simp
    ultimately show ?thesis by simp
  qed
  show ?thesis
  proof (cases "?k = 2 ^ 53")
    case True
    then have r2: "round_units y = 2 ^ (53 + ?s)" by (simp add: r power_add)
    have "b64_shift (2 ^ (53 + ?s)) = Suc ?s"
      by (rule shift_eq) (simp_all add: power_add)
    then have "round_units (2 ^ (53 + ?s)) = round_grid (Suc ?s) (2 ^ (53 + ?s))"
      by (simp add: round_units_def)
    also have "\<dots> = 2 ^ (53 + ?s)" by (rule round_grid_power) simp
    finally show ?thesis by (simp add: r2)
  next
    case False
    with ku have lt: "?k < 2 ^ 53" by simp
    have "of_int ?k < (2::real) ^ 53" using lt by (metis of_int_less_numeral_power_cancel_iff)
    then have u: "\<bar>of_int ?k * (2::real) ^ ?s\<bar> < 2 ^ (53 + ?s)"
      using k0 by (simp add: power_add abs_mult)
    have l: "?s = 0 \<or> 2 ^ (52 + ?s) \<le> \<bar>of_int ?k * (2::real) ^ ?s\<bar>"
    proof (cases "?s = 0")
      case True
      then show ?thesis by simp
    next
      case False
      then have "2 ^ 52 \<le> ?k" using kl by simp
      then have "(2::real) ^ 52 \<le> of_int ?k" by (metis of_int_numeral of_int_power of_int_le_iff)
      then show ?thesis using k0 by (simp add: power_add abs_mult)
    qed
    have "b64_shift (of_int ?k * 2 ^ ?s) = ?s" using u l by (rule shift_eq)
    then have "round_units (of_int ?k * 2 ^ ?s) = round_grid ?s (of_int ?k * 2 ^ ?s)"
      by (simp add: round_units_def)
    then show ?thesis by (simp add: r)
  qed
qed

lemma round_units_idem: "round_units (round_units y) = round_units y"
proof (cases "0 \<le> y")
  case True
  then show ?thesis by (rule round_units_idem_nonneg)
next
  case False
  then have "round_units (round_units (- y)) = round_units (- y)"
    by (intro round_units_idem_nonneg) simp
  then show ?thesis by (simp add: round_units_neg)
qed

lemma b64_round_mono: "x \<le> y \<Longrightarrow> b64_round x \<le> b64_round y"
  by (simp add: b64_round_def round_units_mono divide_right_mono)

lemma b64_round_idem [simp]: "b64_round (b64_round x) = b64_round x"
  by (simp add: b64_round_def round_units_idem)

lemma b64_round_zero [simp]: "b64_round 0 = 0"
  by (simp add: b64_round_def round_units_def)

lemma b64_round_exact:
  assumes "\<bar>n\<bar> < 2 ^ 53" and "k \<le> 1074"
  shows "b64_round (of_int n / 2 ^ k) = of_int n / 2 ^ k"
proof -
  let ?d = "1074 - k"
  let ?y = "of_int n * (2::real) ^ ?d"
  let ?s = "b64_shift ?y"
  have e: "of_int n / 2 ^ k * (2::real) ^ 1074 = ?y"
    using assms(2) by (simp add: power_diff)
  have an: "\<bar>?y\<bar> = of_int \<bar>n\<bar> * 2 ^ ?d" by (simp add: abs_mult)
  have "of_int \<bar>n\<bar> < (2::real) ^ 53"
    using assms(1) by (metis of_int_less_numeral_power_cancel_iff)
  then have u: "\<bar>?y\<bar> < 2 ^ (53 + ?d)"
    unfolding an by (simp add: power_add)
  have sd: "?s \<le> ?d"
  proof (rule ccontr)
    assume "\<not> ?s \<le> ?d"
    then have lt: "?d < ?s" by simp
    then have "(2::real) ^ (52 + ?s) \<le> \<bar>?y\<bar>" by (intro shift_lower) simp
    moreover have "(2::real) ^ (53 + ?d) \<le> 2 ^ (52 + ?s)"
      using lt by (intro power_increasing) simp_all
    ultimately show False using u by linarith
  qed
  then have "(2::real) ^ ?d = 2 ^ (?d - ?s) * 2 ^ ?s"
    by (simp add: power_add [symmetric])
  then have "?y = of_int (n * 2 ^ (?d - ?s)) * 2 ^ ?s"
    by simp
  then have "round_grid ?s ?y = ?y" by (metis round_grid_multiple)
  then have "round_units ?y = ?y" by (simp add: round_units_def)
  then have "b64_round (of_int n / 2 ^ k) = ?y / 2 ^ 1074"
    by (simp only: b64_round_def e)
  also have "\<dots> = of_int n / 2 ^ k" using e by (simp add: field_simps)
  finally show ?thesis .
qed

lemma b64_round_scaled:
  assumes "\<bar>y\<bar> < 2 ^ (53 + j)" and "2 ^ (52 + j) \<le> \<bar>y\<bar>" and "k \<le> 1074"
  shows "b64_round (y / 2 ^ k) = of_int (round_half_even (y / 2 ^ j)) * 2 ^ j / 2 ^ k"
proof -
  let ?d = "1074 - k"
  let ?z = "y * (2::real) ^ ?d"
  have e: "y / 2 ^ k * (2::real) ^ 1074 = ?z"
    using assms(3) by (simp add: power_diff)
  have k: "(2::real) ^ 1074 = 2 ^ ?d * 2 ^ k"
    using assms(3) by (simp add: power_add [symmetric])
  have az: "\<bar>?z\<bar> = \<bar>y\<bar> * 2 ^ ?d" by (simp add: abs_mult)
  have u: "\<bar>?z\<bar> < 2 ^ (53 + (j + ?d))"
    unfolding az using assms(1) by (simp add: power_add)
  have l: "j + ?d = 0 \<or> 2 ^ (52 + (j + ?d)) \<le> \<bar>?z\<bar>"
    unfolding az using assms(2) by (simp add: power_add)
  have "b64_shift ?z = j + ?d" using u l by (rule shift_eq)
  then have "round_units ?z = round_grid (j + ?d) ?z" by (simp add: round_units_def)
  also have "\<dots> = of_int (round_half_even (y / 2 ^ j)) * 2 ^ j * 2 ^ ?d"
    by (simp add: round_grid_def power_add)
  finally have "b64_round (y / 2 ^ k) =
      of_int (round_half_even (y / 2 ^ j)) * 2 ^ j * 2 ^ ?d / 2 ^ 1074"
    by (simp only: b64_round_def e)
  also have "\<dots> = of_int (round_half_even (y / 2 ^ j)) * 2 ^ j / 2 ^ k"
    unfolding k by simp
  finally show ?thesis .
qed

lemma b64_round_values [simp]:
  "b64_round 1 = 1" "b64_round 2 = 2" "b64_round 1000 = 1000"
  "b64_round (1 / 4) = 1 / 4" "b64_round (1 / 2) = 1 / 2" "b64_round (3 / 4) = 3 / 4"
  using b64_round_exact [of 1 0] b64_round_exact [of 2 0] b64_round_exact [of 1000 0]
    b64_round_exact [of 1 2] b64_round_exact [of 1 1] b64_round_exact [of 3 2]
  by simp_all

lemma b64_round_val [simp]: "b64_round (b64_val a) = b64_val a"
  using b64_val [of a] by simp

lemma b64_val_of [simp]: "b64_val (b64_of x) = b64_round x"
  by (simp add: b64_of_def b64_abs_inverse)

lemma b64_of_val [simp]: "b64_of (b64_val a) = a"
  by (simp add: b64_of_def b64_val_inverse)

lemma b64_of_eq [simp]: "(b64_of x = b64_of y) = (b64_round x = b64_round y)"
  by (simp add: b64_of_def b64_abs_inject)

lemma b64_val_add [simp]: "b64_val (b64_add a x) = b64_round (b64_val a + x)"
  by (simp add: b64_add_def)

lemma b64_add_mono: "0 < x \<Longrightarrow> b64_val a \<le> b64_val (b64_add a x)"
  using b64_round_mono [of "b64_val a" "b64_val a + x"] by simp

section \<open>Basic facts\<close>

lemma int_str_small [simp]: "\<bar>n\<bar> < 1000000 \<Longrightarrow> int_str_raises n = False"
proof -
  assume "\<bar>n\<bar> < 1000000"
  moreover have "(10::int) ^ 6 \<le> 10 ^ int_max_str_digits"
    unfolding int_max_str_digits_def by (rule power_increasing) simp_all
  ultimately show ?thesis by (simp add: int_str_raises_def)
qed

lemma init_SomeD:
  "ExecutionGuard_init eid cfg now = Some g0 \<Longrightarrow>
     g0 = \<lparr>execution_id = eid, config = cfg, start_time = now,
           step_count = 0, token_count = 0, cost_tracker = b64_of 0\<rparr>"
  by (simp add: ExecutionGuard_init_def split: if_splits)

lemma config_call: "config (snd (call m g)) = config g"
  by (cases m) (simp_all add: increment_step_def add_tokens_def add_cost_def)

lemma config_run: "config (run ms g) = config g"
  by (induction ms arbitrary: g) (simp_all add: config_call)

lemma first_check_four:
  "first_check [a, b, c, d] =
     (case a of Some r \<Rightarrow> Some r | None \<Rightarrow>
        (case b of Some r \<Rightarrow> Some r | None \<Rightarrow>
           (case c of Some r \<Rightarrow> Some r | None \<Rightarrow> d)))"
  by (simp split: option.splits)

lemma funpow_increment_step:
  "(increment_step ^^ k) g = g\<lparr>step_count := step_count g + int k\<rparr>"
  by (induction k) (simp_all add: increment_step_def)

lemma counters_call:
  "step_count g \<le> step_count (snd (call m g)) \<and>
   token_count g \<le> token_count (snd (call m g)) \<and>
   b64_val (cost_tracker g) \<le> b64_val (cost_tracker (snd (call m g)))"
  by (cases m) (simp_all add: increment_step_def add_tokens_def add_cost_def b64_add_mono
        del: b64_val_add)

lemma counters_run:
  "step_count g \<le> step_count (run ms g) \<and>
   token_count g \<le> token_count (run ms g) \<and>
   b64_val (cost_tracker g) \<le> b64_val (cost_tracker (run ms g))"
proof (induction ms arbitrary: g)
  case Nil
  show ?case by simp
next
  case (Cons m ms)
  have "step_count g \<le> step_count (snd (call m g))"
    and "token_count g \<le> token_count (snd (call m g))"
    and "b64_val (cost_tracker g) \<le> b64_val (cost_tracker (snd (call m g)))"
    using counters_call [of g m] by simp_all
  moreover have "step_count (snd (call m g)) \<le> step_count (run ms (snd (call m g)))"
    and "token_count (snd (call m g)) \<le> token_count (run ms (snd (call m g)))"
    and "b64_val (cost_tracker (snd (call m g))) \<le> b64_val (cost_tracker (run ms (snd (call m g))))"
    using Cons.IH [of "snd (call m g)"] by simp_all
  ultimately show ?case by simp
qed

lemma read_call: "is_read m \<Longrightarrow> snd (call m g) = g"
  by (cases m) simp_all

lemma unset_checks:
  "max_steps (config g) = None \<Longrightarrow> check_step_limit g = None"
  "max_runtime_ms (config g) = None \<Longrightarrow> check_runtime_limit g now = None"
  "max_tokens (config g) = None \<Longrightarrow> check_token_limit g = None"
  "max_cost_usd (config g) = None \<Longrightarrow> check_cost_limit g = None"
  by (simp_all add: check_step_limit_def check_runtime_limit_def check_token_limit_def
        check_cost_limit_def)

lemma check_all_limits_cases:
  "check_all_limits g t1 t2 =
     (case check_step_limit g of Some r \<Rightarrow> r | None \<Rightarrow>
      (case check_runtime_limit g t1 of Some r \<Rightarrow> r | None \<Rightarrow>
       (case check_token_limit g of Some r \<Rightarrow> r | None \<Rightarrow>
        (case check_cost_limit g of Some r \<Rightarrow> r | None \<Rightarrow>
           \<lparr>should_terminate = False, reason = ''WITHIN_LIMITS'',
            details = [(''step_count'', PyInt (step_count g)),
                       (''runtime_ms'', PyFloat ((t2 - start_time g) * 1000)),
                       (''token_count'', PyInt (token_count g)),
                       (''cost_usd'', PyFloat (b64_val (cost_tracker g)))]\<rparr>))))"
  unfolding check_all_limits_def first_check_four current_runtime_ms_def
  by (simp split: option.splits)

lemma reason_of_checks:
  "check_step_limit g = Some r \<Longrightarrow> reason r = ''STEP_LIMIT_EXCEEDED'' \<and> should_terminate r"
  "check_runtime_limit g now = Some r \<Longrightarrow> reason r = ''TIME_LIMIT_EXCEEDED'' \<and> should_terminate r"
  "check_token_limit g = Some r \<Longrightarrow> reason r = ''TOKEN_LIMIT_EXCEEDED'' \<and> should_terminate r"
  "check_cost_limit g = Some r \<Longrightarrow> reason r = ''COST_LIMIT_EXCEEDED'' \<and> should_terminate r"
  by (auto simp add: check_step_limit_def check_runtime_limit_def check_token_limit_def
        check_cost_limit_def split: if_splits)

lemma reason_check_all_limits:
  "reason (check_all_limits g t1 t2) =
     (if check_step_limit g \<noteq> None then ''STEP_LIMIT_EXCEEDED''
      else if check_runtime_limit g t1 \<noteq> None then ''TIME_LIMIT_EXCEEDED''
      else if check_token_limit g \<noteq> None then ''TOKEN_LIMIT_EXCEEDED''
      else if check_cost_limit g \<noteq> None then ''COST_LIMIT_EXCEEDED''
      else ''WITHIN_LIMITS'')"
  by (auto simp add: check_all_limits_cases reason_of_checks split: option.splits)

lemma terminate_check_all_limits:
  "should_terminate (check_all_limits g t1 t2) =
     (check_step_limit g \<noteq> None \<or> check_runtime_limit g t1 \<noteq> None \<or>
      check_token_limit g \<noteq> None \<or> check_cost_limit g \<noteq> None)"
  by (auto simp add: check_all_limits_cases reason_of_checks split: option.splits)

lemma py_literal_0_1: "b64_round (1 / 10) = py_0_1"
proof -
  have "b64_round (2 ^ 56 / 10 / 2 ^ 56) =
      of_int (round_half_even (2 ^ 56 / 10 / 2 ^ 0)) * 2 ^ 0 / 2 ^ 56"
    by (rule b64_round_scaled) simp_all
  moreover have "round_half_even (2 ^ 56 / 10 / 2 ^ 0) = 7205759403792794"
    by (simp add: round_half_even_def)
  moreover have "(2::real) ^ 56 / 10 / 2 ^ 56 = 1 / 10" by simp
  ultimately show ?thesis by (simp only: py_0_1_def) simp
qed

lemma py_literal_0_2: "b64_round (2 / 10) = py_0_2"
proof -
  have "b64_round (2 ^ 56 / 10 / 2 ^ 55) =
      of_int (round_half_even (2 ^ 56 / 10 / 2 ^ 0)) * 2 ^ 0 / 2 ^ 55"
    by (rule b64_round_scaled) simp_all
  moreover have "round_half_even (2 ^ 56 / 10 / 2 ^ 0) = 7205759403792794"
    by (simp add: round_half_even_def)
  moreover have "(2::real) ^ 56 / 10 / 2 ^ 55 = 2 / 10" by simp
  ultimately show ?thesis by (simp only: py_0_2_def) simp
qed

lemma py_literals_b64: "b64_round py_0_1 = py_0_1" "b64_round py_0_2 = py_0_2"
  using py_literal_0_1 py_literal_0_2 b64_round_idem [of "1 / 10"] b64_round_idem [of "2 / 10"]
  by simp_all

lemma fold_add_cost:
  "\<forall>c \<in> set cs. 0 < c \<Longrightarrow>
     fold add_cost cs g =
       g\<lparr>cost_tracker := b64_of (running_total (b64_val (cost_tracker g)) cs)\<rparr>"
proof (induction cs arbitrary: g)
  case Nil
  show ?case by simp
next
  case (Cons c cs)
  then have "0 < c" and "\<forall>c \<in> set cs. 0 < c" by simp_all
  then show ?case using Cons.IH [of "add_cost c g"] by (simp add: add_cost_def b64_add_def)
qed

lemma running_total_b64:
  "b64_round t = t \<Longrightarrow> b64_round (running_total t cs) = running_total t cs"
  by (induction cs arbitrary: t) simp_all

lemma running_total_exact: "exact_sums t cs \<Longrightarrow> running_total t cs = t + sum_list cs"
  by (induction cs arbitrary: t) (simp_all add: add.assoc)

lemma running_total_mono:
  "\<forall>c \<in> set cs. 0 < c \<Longrightarrow> b64_round t = t \<Longrightarrow> t \<le> running_total t cs"
proof (induction cs arbitrary: t)
  case Nil
  show ?case by simp
next
  case (Cons c cs)
  then have "0 < c" by simp
  then have "b64_round t \<le> b64_round (t + c)" by (intro b64_round_mono) simp
  then have "t \<le> b64_round (t + c)" using Cons.prems(2) by simp
  moreover have "b64_round (t + c) \<le> running_total (b64_round (t + c)) cs"
    using Cons.prems(1) by (intro Cons.IH) simp_all
  ultimately show ?case by simp
qed

lemma ten_reports_total: "running_total 0 ten_reports = 9007199254740991 / 2 ^ 53"
proof -
  have r1: "b64_round (0 + py_0_1) = 3602879701896397 / 2 ^ 55"
    using b64_round_exact [of 3602879701896397 55] by (simp add: py_0_1_def)
  have r2: "b64_round (3602879701896397 / 2 ^ 55 + py_0_1) = 7205759403792794 / 2 ^ 55"
    using b64_round_exact [of 7205759403792794 55] by (simp add: py_0_1_def)
  have r3: "b64_round (7205759403792794 / 2 ^ 55 + py_0_1) = 10808639105689192 / 2 ^ 55"
    using b64_round_scaled [of 10808639105689191 1 55]
    by (simp add: py_0_1_def round_half_even_def)
  have r4: "b64_round (10808639105689192 / 2 ^ 55 + py_0_1) = 14411518807585588 / 2 ^ 55"
    using b64_round_scaled [of 14411518807585589 1 55]
    by (simp add: py_0_1_def round_half_even_def)
  have r5: "b64_round (14411518807585588 / 2 ^ 55 + py_0_1) = 18014398509481984 / 2 ^ 55"
    using b64_round_scaled [of 18014398509481985 2 55]
    by (simp add: py_0_1_def round_half_even_def)
  have r6: "b64_round (18014398509481984 / 2 ^ 55 + py_0_1) = 21617278211378380 / 2 ^ 55"
    using b64_round_scaled [of 21617278211378381 2 55]
    by (simp add: py_0_1_def round_half_even_def)
  have r7: "b64_round (21617278211378380 / 2 ^ 55 + py_0_1) = 25220157913274776 / 2 ^ 55"
    using b64_round_scaled [of 25220157913274777 2 55]
    by (simp add: py_0_1_def round_half_even_def)
  have r8: "b64_round (25220157913274776 / 2 ^ 55 + py_0_1) = 28823037615171172 / 2 ^ 55"
    using b64_round_scaled [of 28823037615171173 2 55]
    by (simp add: py_0_1_def round_half_even_def)
  have r9: "b64_round (28823037615171172 / 2 ^ 55 + py_0_1) = 32425917317067568 / 2 ^ 55"
    using b64_round_scaled [of 32425917317067569 2 55]
    by (simp add: py_0_1_def round_half_even_def)
  have r10: "b64_round (32425917317067568 / 2 ^ 55 + py_0_1) = 36028797018963964 / 2 ^ 55"
    using b64_round_scaled [of 36028797018963965 2 55]
    by (simp add: py_0_1_def round_half_even_def)
  have "running_total 0 ten_reports = 36028797018963964 / 2 ^ 55"
    unfolding ten_reports_def
    by (simp only: running_total.simps r1 r2 r3 r4 r5 r6 r7 r8 r9 r10)
  then show ?thesis by simp
qed

section \<open>Priority order of the aggregate check\<close>



section \<open>The step limit is strict\<close>

text \<open>
  Claim C2. For every positive \<open>k\<close>, on a freshly constructed guard whose
  \<open>max_steps\<close> is \<open>k\<close>: after exactly \<open>k\<close> calls of \<open>increment_step\<close> the step
  check returns nothing; after one more call it returns a result with
  \<open>should_terminate\<close>, the reason \<open>STEP_LIMIT_EXCEEDED\<close> and \<open>step_count = k + 1\<close>
  in its details. For every guard, the step check trips exactly when a step ceiling is
  set and \<open>step_count\<close> is strictly greater than it.
\<close>

theorem step_limit_strict:
  assumes "0 < k" and "max_steps cfg = Some (int k)"
    and "ExecutionGuard_init eid cfg t0 = Some g0"
  shows "check_step_limit ((increment_step ^^ k) g0) = None \<and>
         check_step_limit ((increment_step ^^ Suc k) g0) =
           Some \<lparr>should_terminate = True, reason = ''STEP_LIMIT_EXCEEDED'',
                 details = [(''step_count'', PyInt (int k + 1)),
                            (''max_steps'', PyInt (int k))]\<rparr> \<and>
         ((\<exists>r. check_step_limit g = Some r \<and> should_terminate r) =
            (\<exists>m. max_steps (config g) = Some m \<and> step_count g > m))"
proof -
  from assms(3) have g0: "g0 = \<lparr>execution_id = eid, config = cfg, start_time = t0,
      step_count = 0, token_count = 0, cost_tracker = b64_of 0\<rparr>"
    by (rule init_SomeD)
  have a: "check_step_limit ((increment_step ^^ k) g0) = None"
    using assms(2) by (simp add: funpow_increment_step check_step_limit_def g0)
  have b: "check_step_limit ((increment_step ^^ Suc k) g0) =
           Some \<lparr>should_terminate = True, reason = ''STEP_LIMIT_EXCEEDED'',
                 details = [(''step_count'', PyInt (int k + 1)),
                            (''max_steps'', PyInt (int k))]\<rparr>"
    using assms(2)
    by (simp add: funpow_increment_step check_step_limit_def g0 del: funpow.simps)
  have c: "(\<exists>r. check_step_limit g = Some r \<and> should_terminate r) =
            (\<exists>m. max_steps (config g) = Some m \<and> step_count g > m)"
    by (auto simp add: check_step_limit_def)
  from a b c show ?thesis by blast
qed

text \<open>The scenario of \<^verbatim>\<open>test_step_limit_exceeded\<close>: three steps pass, the fourth trips.\<close>

theorem step_limit_strict_witness:
  "(0::nat) < 3 \<and> max_steps config_three_steps = Some (int 3) \<and>
   ExecutionGuard_init ''test-execution'' config_three_steps 0 = Some guard_three_steps \<and>
   check_step_limit ((increment_step ^^ 3) guard_three_steps) = None \<and>
   check_step_limit ((increment_step ^^ Suc 3) guard_three_steps) =
     Some \<lparr>should_terminate = True, reason = ''STEP_LIMIT_EXCEEDED'',
           details = [(''step_count'', PyInt 4), (''max_steps'', PyInt 3)]\<rparr>"
  using step_limit_strict [of 3 config_three_steps "''test-execution''" 0 guard_three_steps]
  by (simp add: ExecutionGuard_init_def guard_three_steps_def config_three_steps_def
        config_str_raises_def limit_str_raises_def del: funpow.simps)

section \<open>The runtime, token and cost limits are inclusive\<close>



section \<open>Construction validates nothing\<close>

text \<open>
  Claim C4, as stated: a configuration with a negative limit is rejected by the
  constructor. It is not: \<open>config_negative\<close> has negative limits and the constructor
  returns a guard that holds it.
\<close>

theorem construction_counterexample:
  "has_negative_limit config_negative \<and>
   ExecutionGuard_init ''bad'' config_negative 0 =
     Some \<lparr>execution_id = ''bad'', config = config_negative, start_time = 0,
           step_count = 0, token_count = 0, cost_tracker = b64_of 0\<rparr>"
  by (simp add: has_negative_limit_def config_negative_def ExecutionGuard_init_def
        config_str_raises_def limit_str_raises_def)

text \<open>
  Claim C4, amended. A negative limit is no ground for rejection. For every
  configuration whose integer limits have at most 4300 decimal digits, also one with
  negative limits, the constructor returns a guard: it stores the identifier, the
  configuration as given and the clock reading, and sets the three counters to zero. A
  negative \<open>max_steps\<close>, \<open>max_tokens\<close> or \<open>max_cost_usd\<close> is met only afterwards, by
  the corresponding check, which trips already on the fresh guard.
\<close>

theorem construction_accepts_negative_limits:
  assumes "\<not> config_str_raises cfg"
  shows "ExecutionGuard_init eid cfg now =
           Some \<lparr>execution_id = eid, config = cfg, start_time = now,
                 step_count = 0, token_count = 0, cost_tracker = b64_of 0\<rparr> \<and>
         (ExecutionGuard_init eid cfg now = Some g \<longrightarrow>
            (max_steps cfg = Some ms \<and> ms < 0 \<longrightarrow> check_step_limit g \<noteq> None) \<and>
            (max_tokens cfg = Some mt \<and> mt < 0 \<longrightarrow> check_token_limit g \<noteq> None) \<and>
            (max_cost_usd cfg = Some mc \<and> mc < 0 \<longrightarrow> check_cost_limit g \<noteq> None))"
  using assms
  by (auto simp add: ExecutionGuard_init_def check_step_limit_def check_token_limit_def
        check_cost_limit_def)

theorem construction_accepts_negative_limits_witness:
  "\<not> config_str_raises config_negative \<and>
   ExecutionGuard_init ''bad'' config_negative 0 =
     Some \<lparr>execution_id = ''bad'', config = config_negative, start_time = 0,
           step_count = 0, token_count = 0, cost_tracker = b64_of 0\<rparr> \<and>
   max_steps config_negative = Some (- 1) \<and> (- 1 :: int) < 0 \<and>
   max_tokens config_negative = Some (- 5) \<and> (- 5 :: int) < 0 \<and>
   max_cost_usd config_negative = Some (- 2) \<and> (- 2 :: real) < 0 \<and>
   check_step_limit \<lparr>execution_id = ''bad'', config = config_negative, start_time = 0,
           step_count = 0, token_count = 0, cost_tracker = b64_of 0\<rparr> \<noteq> None \<and>
   check_token_limit \<lparr>execution_id = ''bad'', config = config_negative, start_time = 0,
           step_count = 0, token_count = 0, cost_tracker = b64_of 0\<rparr> \<noteq> None \<and>
   check_cost_limit \<lparr>execution_id = ''bad'', config = config_negative, start_time = 0,
           step_count = 0, token_count = 0, cost_tracker = b64_of 0\<rparr> \<noteq> None"
  using construction_accepts_negative_limits [of config_negative "''bad''" 0
      "\<lparr>execution_id = ''bad'', config = config_negative, start_time = 0,
           step_count = 0, token_count = 0, cost_tracker = b64_of 0\<rparr>" "- 1" "- 5" "- 2"]
  by (simp add: config_negative_def config_str_raises_def limit_str_raises_def)

section \<open>Usage reports\<close>

text \<open>
  Claim C5, as stated: a positive amount is added exactly to the accumulated cost. It
  is not: on a fresh guard that has recorded the report \<^verbatim>\<open>0.1\<close>, the report
  \<^verbatim>\<open>0.2\<close> leaves \<open>cost_tracker\<close> at \<^verbatim>\<open>0.30000000000000004\<close>, which is not the
  sum of the value before and the amount.
\<close>

theorem add_cost_counterexample:
  "0 < py_0_2 \<and>
   b64_val (cost_tracker (add_cost py_0_1 guard_unset)) = py_0_1 \<and>
   b64_val (cost_tracker (snd (call (Add_cost py_0_2) (add_cost py_0_1 guard_unset)))) =
     5404319552844596 / 2 ^ 54 \<and>
   b64_val (cost_tracker (snd (call (Add_cost py_0_2) (add_cost py_0_1 guard_unset)))) \<noteq>
     b64_val (cost_tracker (add_cost py_0_1 guard_unset)) + py_0_2"
proof -
  have a: "b64_round py_0_1 = py_0_1" by (rule py_literals_b64)
  have s: "py_0_1 + py_0_2 = 10808639105689191 / 2 ^ 55"
    by (simp add: py_0_1_def py_0_2_def)
  have h: "round_half_even (10808639105689191 / 2 ^ 1) = 5404319552844596"
    by (simp add: round_half_even_def)
  have "b64_round (py_0_1 + py_0_2) = b64_round (10808639105689191 / 2 ^ 55)"
    by (simp only: s)
  also have "\<dots> = of_int (round_half_even (10808639105689191 / 2 ^ 1)) * 2 ^ 1 / 2 ^ 55"
    by (rule b64_round_scaled) simp_all
  also have "\<dots> = 5404319552844596 / 2 ^ 54"
    by (simp only: h) simp
  finally have b: "b64_round (py_0_1 + py_0_2) = 5404319552844596 / 2 ^ 54" .
  have p1: "0 < py_0_1" and p2: "0 < py_0_2" by (simp_all add: py_0_1_def py_0_2_def)
  have c: "b64_val (cost_tracker (add_cost py_0_1 guard_unset)) = py_0_1"
    using p1 a by (simp add: add_cost_def guard_unset_def)
  have d: "b64_val (cost_tracker (snd (call (Add_cost py_0_2)
        (add_cost py_0_1 guard_unset)))) = 5404319552844596 / 2 ^ 54"
    using p1 p2 a b by (simp add: add_cost_def guard_unset_def)
  have e: "(5404319552844596 / 2 ^ 54 :: real) \<noteq> py_0_1 + py_0_2"
    by (simp add: py_0_1_def py_0_2_def)
  from p2 c d e show ?thesis by simp
qed

text \<open>
  Claim C5, amended. For every guard: \<open>add_tokens\<close> with \<open>n \<le> 0\<close> and \<open>add_cost\<close>
  with an amount \<open>\<le> 0\<close> return \<^verbatim>\<open>None\<close> and leave the whole guard as it was;
  \<open>add_tokens\<close> with \<open>n > 0\<close> adds exactly \<open>n\<close> to \<open>token_count\<close> and changes
  nothing else; \<open>add_cost\<close> with an amount \<open>> 0\<close> changes only \<open>cost_tracker\<close>, which
  becomes the binary64 sum: the old value plus the amount, rounded to the nearest
  binary64 value (for a sum below \<open>2 ^ 1024\<close>). The new value is never below the old
  one, and it is exactly the old value plus the amount when that sum is a binary64
  value.
\<close>

theorem usage_reports_recorded:
  "(n \<le> 0 \<longrightarrow> call (Add_tokens n) g = (RetNone, g)) \<and>
   (0 < p \<longrightarrow> call (Add_tokens p) g = (RetNone, g\<lparr>token_count := token_count g + p\<rparr>)) \<and>
   (c \<le> 0 \<longrightarrow> call (Add_cost c) g = (RetNone, g)) \<and>
   (0 < d \<and> b64_round (b64_val (cost_tracker g) + d) < 2 ^ 1024 \<longrightarrow>
      call (Add_cost d) g = (RetNone, g\<lparr>cost_tracker := b64_add (cost_tracker g) d\<rparr>) \<and>
      b64_val (b64_add (cost_tracker g) d) = b64_round (b64_val (cost_tracker g) + d) \<and>
      b64_val (cost_tracker g) \<le> b64_val (b64_add (cost_tracker g) d) \<and>
      (b64_round (b64_val (cost_tracker g) + d) = b64_val (cost_tracker g) + d \<longrightarrow>
         b64_val (b64_add (cost_tracker g) d) = b64_val (cost_tracker g) + d))"
proof -
  have t: "(n \<le> 0 \<longrightarrow> call (Add_tokens n) g = (RetNone, g)) \<and>
      (0 < p \<longrightarrow> call (Add_tokens p) g = (RetNone, g\<lparr>token_count := token_count g + p\<rparr>))"
    by (simp add: add_tokens_def)
  have z: "c \<le> 0 \<longrightarrow> call (Add_cost c) g = (RetNone, g)"
    by (simp add: add_cost_def)
  have m: "0 < d \<longrightarrow> b64_val (cost_tracker g) \<le> b64_val (b64_add (cost_tracker g) d)"
    by (simp add: b64_add_mono del: b64_val_add)
  have a: "0 < d \<longrightarrow>
      call (Add_cost d) g = (RetNone, g\<lparr>cost_tracker := b64_add (cost_tracker g) d\<rparr>)"
    by (simp add: add_cost_def)
  from t z m a show ?thesis by simp
qed

theorem usage_reports_recorded_witness:
  "(- 7 :: int) \<le> 0 \<and> (0 :: int) < 50 \<and> (- 1 / 4 :: real) \<le> 0 \<and> (0 :: real) < 1 / 4 \<and>
   b64_round (b64_val (cost_tracker guard_within) + 1 / 4) < 2 ^ 1024 \<and>
   b64_round (b64_val (cost_tracker guard_within) + 1 / 4) =
     b64_val (cost_tracker guard_within) + 1 / 4 \<and>
   call (Add_tokens (- 7)) guard_within = (RetNone, guard_within) \<and>
   call (Add_tokens 50) guard_within = (RetNone, guard_within\<lparr>token_count := 100\<rparr>) \<and>
   call (Add_cost (- 1 / 4)) guard_within = (RetNone, guard_within) \<and>
   call (Add_cost (1 / 4)) guard_within =
     (RetNone, guard_within\<lparr>cost_tracker := b64_of (3 / 4)\<rparr>) \<and>
   b64_val (b64_add (cost_tracker guard_within) (1 / 4)) = 3 / 4"
proof -
  have "(3 / 4 :: real) < 2 ^ 1024"
    using power_strict_increasing [of 0 1024 "2::real"] by simp
  then show ?thesis
    using usage_reports_recorded [of "- 7" guard_within 50 "- 1 / 4" "1 / 4"]
    by (simp add: guard_within_def b64_add_def)
qed

section \<open>A limit that is not set never trips\<close>

text \<open>
  Claim C6. For every guard and every sequence of method calls performed on it: a
  dimension whose ceiling is \<^verbatim>\<open>None\<close> has its own check return nothing afterwards,
  and \<open>check_all_limits\<close> never reports the reason of that dimension. With the four
  ceilings all unset, \<open>check_all_limits\<close> returns \<open>should_terminate = False\<close> with
  the reason \<open>WITHIN_LIMITS\<close> after any sequence of calls.
\<close>

theorem unset_limit_never_trips:
  "(max_steps (config g) = None \<longrightarrow>
      check_step_limit (run ms g) = None \<and>
      reason (check_all_limits (run ms g) t1 t2) \<noteq> ''STEP_LIMIT_EXCEEDED'') \<and>
   (max_runtime_ms (config g) = None \<longrightarrow>
      check_runtime_limit (run ms g) t1 = None \<and>
      reason (check_all_limits (run ms g) t1 t2) \<noteq> ''TIME_LIMIT_EXCEEDED'') \<and>
   (max_tokens (config g) = None \<longrightarrow>
      check_token_limit (run ms g) = None \<and>
      reason (check_all_limits (run ms g) t1 t2) \<noteq> ''TOKEN_LIMIT_EXCEEDED'') \<and>
   (max_cost_usd (config g) = None \<longrightarrow>
      check_cost_limit (run ms g) = None \<and>
      reason (check_all_limits (run ms g) t1 t2) \<noteq> ''COST_LIMIT_EXCEEDED'') \<and>
   (max_steps (config g) = None \<and> max_runtime_ms (config g) = None \<and>
    max_tokens (config g) = None \<and> max_cost_usd (config g) = None \<longrightarrow>
      should_terminate (check_all_limits (run ms g) t1 t2) = False \<and>
      reason (check_all_limits (run ms g) t1 t2) = ''WITHIN_LIMITS'')"
proof -
  have cfg: "config (run ms g) = config g" by (rule config_run)
  have s: "max_steps (config g) = None \<longrightarrow>
      check_step_limit (run ms g) = None \<and>
      reason (check_all_limits (run ms g) t1 t2) \<noteq> ''STEP_LIMIT_EXCEEDED''"
    by (simp add: reason_check_all_limits unset_checks cfg)
  have r: "max_runtime_ms (config g) = None \<longrightarrow>
      check_runtime_limit (run ms g) t1 = None \<and>
      reason (check_all_limits (run ms g) t1 t2) \<noteq> ''TIME_LIMIT_EXCEEDED''"
    by (simp add: reason_check_all_limits unset_checks cfg)
  have t: "max_tokens (config g) = None \<longrightarrow>
      check_token_limit (run ms g) = None \<and>
      reason (check_all_limits (run ms g) t1 t2) \<noteq> ''TOKEN_LIMIT_EXCEEDED''"
    by (simp add: reason_check_all_limits unset_checks cfg)
  have c: "max_cost_usd (config g) = None \<longrightarrow>
      check_cost_limit (run ms g) = None \<and>
      reason (check_all_limits (run ms g) t1 t2) \<noteq> ''COST_LIMIT_EXCEEDED''"
    by (simp add: reason_check_all_limits unset_checks cfg)
  have a: "max_steps (config g) = None \<and> max_runtime_ms (config g) = None \<and>
    max_tokens (config g) = None \<and> max_cost_usd (config g) = None \<longrightarrow>
      should_terminate (check_all_limits (run ms g) t1 t2) = False \<and>
      reason (check_all_limits (run ms g) t1 t2) = ''WITHIN_LIMITS''"
    by (simp add: reason_check_all_limits terminate_check_all_limits unset_checks cfg)
  from s r t c a show ?thesis by blast
qed

text \<open>The scenario of \<^verbatim>\<open>test_no_limits_configured\<close>, with two steps.\<close>

theorem unset_limit_never_trips_witness:
  "max_steps (config guard_unset) = None \<and> max_runtime_ms (config guard_unset) = None \<and>
   max_tokens (config guard_unset) = None \<and> max_cost_usd (config guard_unset) = None \<and>
   run [Increment_step, Increment_step, Add_tokens 1000000, Add_cost 1000] guard_unset =
     guard_unset\<lparr>step_count := 2, token_count := 1000000, cost_tracker := b64_of 1000\<rparr> \<and>
   should_terminate (check_all_limits
     (run [Increment_step, Increment_step, Add_tokens 1000000, Add_cost 1000] guard_unset)
     5 6) = False \<and>
   reason (check_all_limits
     (run [Increment_step, Increment_step, Add_tokens 1000000, Add_cost 1000] guard_unset)
     5 6) = ''WITHIN_LIMITS''"
  using unset_limit_never_trips [of guard_unset
      "[Increment_step, Increment_step, Add_tokens 1000000, Add_cost 1000]" 5 6]
  by (simp add: guard_unset_def config_unset_def increment_step_def add_tokens_def
        add_cost_def b64_add_def)

section \<open>Counters never decrease\<close>

text \<open>
  Claim C7. For every guard and every method call, with any argument, each of
  \<open>step_count\<close>, \<open>token_count\<close> and \<open>cost_tracker\<close> is afterwards greater than or
  equal to its value before; counters that are non-negative stay non-negative; and
  after any sequence of calls on a freshly constructed guard the three counters are
  non-negative.
\<close>

theorem counters_never_decrease:
  "step_count g \<le> step_count (snd (call m g)) \<and>
   token_count g \<le> token_count (snd (call m g)) \<and>
   b64_val (cost_tracker g) \<le> b64_val (cost_tracker (snd (call m g))) \<and>
   (0 \<le> step_count g \<and> 0 \<le> token_count g \<and> 0 \<le> b64_val (cost_tracker g) \<longrightarrow>
      0 \<le> step_count (snd (call m g)) \<and> 0 \<le> token_count (snd (call m g)) \<and>
      0 \<le> b64_val (cost_tracker (snd (call m g)))) \<and>
   (ExecutionGuard_init eid cfg now = Some g0 \<longrightarrow>
      0 \<le> step_count (run ms g0) \<and> 0 \<le> token_count (run ms g0) \<and>
      0 \<le> b64_val (cost_tracker (run ms g0)))"
proof -
  have a: "step_count g \<le> step_count (snd (call m g))"
    and b: "token_count g \<le> token_count (snd (call m g))"
    and c: "b64_val (cost_tracker g) \<le> b64_val (cost_tracker (snd (call m g)))"
    using counters_call [of g m] by simp_all
  have d: "ExecutionGuard_init eid cfg now = Some g0 \<longrightarrow>
      0 \<le> step_count (run ms g0) \<and> 0 \<le> token_count (run ms g0) \<and>
      0 \<le> b64_val (cost_tracker (run ms g0))"
  proof
    assume "ExecutionGuard_init eid cfg now = Some g0"
    then have "step_count g0 = 0" "token_count g0 = 0" "b64_val (cost_tracker g0) = 0"
      by (auto dest: init_SomeD)
    then show "0 \<le> step_count (run ms g0) \<and> 0 \<le> token_count (run ms g0) \<and>
      0 \<le> b64_val (cost_tracker (run ms g0))"
      using counters_run [of g0 ms] by simp
  qed
  from a b c d show ?thesis by auto
qed

theorem counters_never_decrease_witness:
  "ExecutionGuard_init ''test-execution'' config_all_set 0 =
     Some (guard_within\<lparr>step_count := 0, token_count := 0, cost_tracker := b64_of 0\<rparr>) \<and>
   0 \<le> step_count guard_within \<and> 0 \<le> token_count guard_within \<and>
   0 \<le> b64_val (cost_tracker guard_within) \<and>
   step_count guard_within \<le> step_count (snd (call (Add_tokens (- 7)) guard_within)) \<and>
   token_count (snd (call (Add_tokens (- 7)) guard_within)) = 50 \<and>
   0 \<le> token_count (run [Add_tokens (- 7), Add_cost (- 3), Increment_step]
         (guard_within\<lparr>step_count := 0, token_count := 0, cost_tracker := b64_of 0\<rparr>)) \<and>
   0 \<le> b64_val (cost_tracker (run [Add_tokens (- 7), Add_cost (- 3), Increment_step]
         (guard_within\<lparr>step_count := 0, token_count := 0, cost_tracker := b64_of 0\<rparr>)))"
  using counters_never_decrease [of guard_within "Add_tokens (- 7)"
      "''test-execution''" config_all_set 0
      "guard_within\<lparr>step_count := 0, token_count := 0, cost_tracker := b64_of 0\<rparr>"
      "[Add_tokens (- 7), Add_cost (- 3), Increment_step]"]
  by (simp add: guard_within_def config_all_set_def ExecutionGuard_init_def
        config_str_raises_def limit_str_raises_def add_tokens_def add_cost_def
        increment_step_def)

section \<open>Reading does not change the guard\<close>

text \<open>
  Claim C10. For every guard, a call of \<open>check_step_limit\<close>,
  \<open>check_runtime_limit\<close>, \<open>check_token_limit\<close>, \<open>check_cost_limit\<close>,
  \<open>check_all_limits\<close> or \<open>get_stats\<close> leaves the guard exactly as it was (identifier,
  configuration, start time and the three counters), and so does any sequence of such
  calls.
\<close>

theorem reads_do_not_mutate:
  "snd (call Check_step_limit g) = g \<and>
   snd (call (Check_runtime_limit now) g) = g \<and>
   snd (call Check_token_limit g) = g \<and>
   snd (call Check_cost_limit g) = g \<and>
   snd (call (Check_all_limits t1 t2) g) = g \<and>
   snd (call (Get_stats now) g) = g \<and>
   ((\<forall>m \<in> set ms. is_read m) \<longrightarrow> run ms g = g)"
proof -
  have "(\<forall>m \<in> set ms. is_read m) \<longrightarrow> run ms g = g"
    by (induction ms) (simp_all add: read_call)
  then show ?thesis by simp
qed

theorem reads_do_not_mutate_witness:
  "is_read Check_step_limit \<and> is_read (Check_runtime_limit 3) \<and> is_read Check_token_limit \<and>
   is_read Check_cost_limit \<and> is_read (Check_all_limits 4 5) \<and> is_read (Get_stats 6) \<and>
   run [Check_step_limit, Check_runtime_limit 3, Check_token_limit, Check_cost_limit,
        Check_all_limits 4 5, Get_stats 6] guard_within = guard_within"
  using reads_do_not_mutate [of guard_within 0 0 0
      "[Check_step_limit, Check_runtime_limit 3, Check_token_limit, Check_cost_limit,
        Check_all_limits 4 5, Get_stats 6]"]
  by simp

section \<open>The aggregate check is a function of the state and the clock\<close>



section \<open>Accumulated cost and the cost ceiling\<close>

text \<open>
  Claim C9, as stated: when the reports add up to the ceiling, the cost check trips,
  whatever the rounding. It does not: ten reports of \<^verbatim>\<open>0.1\<close> on a fresh guard with
  a ceiling of 1 add up to at least 1, but leave \<open>cost_tracker\<close> at
  \<^verbatim>\<open>0.9999999999999999\<close>, and the check returns nothing.
\<close>

theorem cost_limit_missed_counterexample:
  "0 < py_0_1 \<and> set ten_reports = {py_0_1} \<and> length ten_reports = 10 \<and>
   max_cost_usd (config guard_cost_one) = Some 1 \<and>
   1 \<le> b64_val (cost_tracker guard_cost_one) + sum_list ten_reports \<and>
   b64_val (cost_tracker (fold add_cost ten_reports guard_cost_one)) =
     9007199254740991 / 2 ^ 53 \<and>
   check_cost_limit (fold add_cost ten_reports guard_cost_one) = None"
proof -
  have p: "0 < py_0_1" by (simp add: py_0_1_def)
  have s: "set ten_reports = {py_0_1}" and l: "length ten_reports = 10"
    by (simp_all add: ten_reports_def)
  have f: "fold add_cost ten_reports guard_cost_one =
      guard_cost_one\<lparr>cost_tracker := b64_of (running_total 0 ten_reports)\<rparr>"
    using fold_add_cost [of ten_reports guard_cost_one] p s
    by (simp add: guard_cost_one_def)
  have r: "b64_round (running_total 0 ten_reports) = running_total 0 ten_reports"
    by (rule running_total_b64) simp
  have "b64_val (cost_tracker (fold add_cost ten_reports guard_cost_one)) =
      running_total 0 ten_reports"
    by (simp add: f r)
  then have v: "b64_val (cost_tracker (fold add_cost ten_reports guard_cost_one)) =
      9007199254740991 / 2 ^ 53"
    by (simp only: ten_reports_total)
  have cf: "config (fold add_cost ten_reports guard_cost_one) = config guard_cost_one"
    by (simp add: f)
  have e: "1 \<le> b64_val (cost_tracker guard_cost_one) + sum_list ten_reports"
    by (simp add: guard_cost_one_def ten_reports_def py_0_1_def)
  have m: "max_cost_usd (config guard_cost_one) = Some 1"
    by (simp add: guard_cost_one_def)
  have c: "check_cost_limit (fold add_cost ten_reports guard_cost_one) = None"
    by (simp add: check_cost_limit_def v cf m)
  from p s l m e v c show ?thesis by simp
qed

text \<open>
  Claim C9, amended. For every configured \<open>max_cost_usd\<close> and every finite sequence of
  positive cost reports, the cost check trips exactly when the binary64 running total,
  in which every addition is rounded to the nearest binary64 value, is greater than or
  equal to the ceiling; there is no tolerance. When no addition rounds, the running
  total is the sum of the reports, and the check trips when that sum reaches the
  ceiling. A check that has tripped keeps tripping under further positive reports.
\<close>

theorem cost_limit_on_running_total:
  assumes "\<forall>c \<in> set cs. 0 < c" and "max_cost_usd (config g) = Some m"
  shows "((\<exists>r. check_cost_limit (fold add_cost cs g) = Some r \<and> should_terminate r) =
           (m \<le> running_total (b64_val (cost_tracker g)) cs)) \<and>
         (exact_sums (b64_val (cost_tracker g)) cs \<and>
          m \<le> b64_val (cost_tracker g) + sum_list cs \<longrightarrow>
            check_cost_limit (fold add_cost cs g) \<noteq> None) \<and>
         (check_cost_limit g \<noteq> None \<longrightarrow> check_cost_limit (fold add_cost cs g) \<noteq> None)"
proof -
  let ?t = "running_total (b64_val (cost_tracker g)) cs"
  have f: "fold add_cost cs g = g\<lparr>cost_tracker := b64_of ?t\<rparr>"
    using assms(1) by (rule fold_add_cost)
  have "b64_round ?t = ?t" by (rule running_total_b64) simp
  then have v: "b64_val (cost_tracker (fold add_cost cs g)) = ?t" by (simp add: f)
  have c: "config (fold add_cost cs g) = config g" by (simp add: f)
  have i: "(check_cost_limit (fold add_cost cs g) \<noteq> None) = (m \<le> ?t)"
    using assms(2) by (simp add: check_cost_limit_def v c)
  have a: "(\<exists>r. check_cost_limit (fold add_cost cs g) = Some r \<and> should_terminate r) =
      (m \<le> ?t)"
    using i reason_of_checks(4) [of "fold add_cost cs g"] by auto
  have b: "exact_sums (b64_val (cost_tracker g)) cs \<and>
      m \<le> b64_val (cost_tracker g) + sum_list cs \<longrightarrow>
        check_cost_limit (fold add_cost cs g) \<noteq> None"
    using i by (simp add: running_total_exact)
  have "b64_val (cost_tracker g) \<le> ?t"
    using assms(1) by (intro running_total_mono) simp_all
  moreover have "check_cost_limit g \<noteq> None \<longrightarrow> m \<le> b64_val (cost_tracker g)"
    using assms(2) by (simp add: check_cost_limit_def split: if_splits)
  ultimately have d: "check_cost_limit g \<noteq> None \<longrightarrow>
      check_cost_limit (fold add_cost cs g) \<noteq> None"
    using i by auto
  from a b d show ?thesis by blast
qed

text \<open>Four reports of a quarter against a ceiling of one: no addition rounds.\<close>

theorem cost_limit_on_running_total_witness:
  "(0 :: real) < 1 / 4 \<and> set [1 / 4, 1 / 4, 1 / 4, 1 / 4] = {1 / 4 :: real} \<and>
   max_cost_usd (config guard_cost_one) = Some 1 \<and>
   exact_sums (b64_val (cost_tracker guard_cost_one)) [1 / 4, 1 / 4, 1 / 4, 1 / 4] \<and>
   1 \<le> b64_val (cost_tracker guard_cost_one) + sum_list [1 / 4, 1 / 4, 1 / 4, 1 / 4] \<and>
   running_total (b64_val (cost_tracker guard_cost_one)) [1 / 4, 1 / 4, 1 / 4, 1 / 4] = 1 \<and>
   check_cost_limit (fold add_cost [1 / 4, 1 / 4, 1 / 4, 1 / 4] guard_cost_one) \<noteq> None"
  using cost_limit_on_running_total [of "[1 / 4, 1 / 4, 1 / 4, 1 / 4]" guard_cost_one 1]
  by (simp add: guard_cost_one_def)

end
